theory Spec2Isabelle
  imports Main "HOL-Library.Sublist"
begin

section \<open>Python values as the callback receives them\<close>

text \<open>
  The agent hands \<open>callback_handler\<close> keyword arguments whose values are JSON-like
  Python objects. The handler inspects them dynamically (\<open>in\<close>, \<open>[...]\<close>, \<open>.get\<close>,
  iteration, truthiness), so the values are modelled untyped: every operation is defined
  on every value and raises where Python raises. Dictionary keys are strings; a
  dictionary is an association list read with \<open>map_of\<close> (keys are taken to be distinct,
  as in a Python dict). Floats are left out: for every operation below a float behaves
  as an \<open>int\<close> does.
\<close>

datatype pyval =
    PNone
  | PBool bool
  | PInt int
  | PStr string
  | PList "pyval list"
  | PDict "(string \<times> pyval) list"

text \<open>
  The exceptions of the operations below, and \<open>Agent_error\<close> for whatever the agent call
  itself may raise.
\<close>

datatype py_error = KeyError string | TypeError | AttributeError | Agent_error string

text \<open>Truthiness, as \<open>if v:\<close> tests it.\<close>

fun truthy :: "pyval \<Rightarrow> bool" where
  "truthy PNone = False"
| "truthy (PBool b) = b"
| "truthy (PInt i) = (i \<noteq> 0)"
| "truthy (PStr s) = (s \<noteq> [])"
| "truthy (PList xs) = (xs \<noteq> [])"
| "truthy (PDict kvs) = (kvs \<noteq> [])"

text \<open>\<open>p in s\<close> on two strings is the substring test.\<close>

fun starts_with :: "string \<Rightarrow> string \<Rightarrow> bool" where
  "starts_with [] s = True"
| "starts_with (p # ps) [] = False"
| "starts_with (p # ps) (c # cs) = (p = c \<and> starts_with ps cs)"

fun substring :: "string \<Rightarrow> string \<Rightarrow> bool" where
  "substring p [] = (p = [])"
| "substring p (c # cs) = (starts_with p (c # cs) \<or> substring p cs)"

text \<open>
  \<open>k in v\<close> for a string \<open>k\<close>: key membership on a dict, substring test on a string,
  element membership on a list, and \<open>TypeError\<close> on everything else.
\<close>

fun py_in :: "string \<Rightarrow> pyval \<Rightarrow> py_error + bool" where
  "py_in k (PDict kvs) = Inr (k \<in> set (map fst kvs))"
| "py_in k (PStr s) = Inr (substring k s)"
| "py_in k (PList xs) = Inr (PStr k \<in> set xs)"
| "py_in k PNone = Inl TypeError"
| "py_in k (PBool b) = Inl TypeError"
| "py_in k (PInt i) = Inl TypeError"

text \<open>
  \<open>v[k]\<close> for a string \<open>k\<close>: \<open>KeyError\<close> on a dict without the key, \<open>TypeError\<close> on a
  string or list (indices must be integers) and on values that are not subscriptable.
\<close>

fun py_getitem :: "pyval \<Rightarrow> string \<Rightarrow> py_error + pyval" where
  "py_getitem (PDict kvs) k =
     (case map_of kvs k of None \<Rightarrow> Inl (KeyError k) | Some v \<Rightarrow> Inr v)"
| "py_getitem PNone k = Inl TypeError"
| "py_getitem (PBool b) k = Inl TypeError"
| "py_getitem (PInt i) k = Inl TypeError"
| "py_getitem (PStr s) k = Inl TypeError"
| "py_getitem (PList xs) k = Inl TypeError"

text \<open>\<open>d.get(k, default)\<close> on a dict.\<close>

definition dict_get :: "(string \<times> pyval) list \<Rightarrow> string \<Rightarrow> pyval \<Rightarrow> pyval" where
  "dict_get kvs k d = (case map_of kvs k of None \<Rightarrow> d | Some v \<Rightarrow> v)"

text \<open>
  \<open>for x in v\<close>: the elements of a list, the one-character strings of a string, the
  keys of a dict; \<open>TypeError\<close> on values that are not iterable.
\<close>

fun py_iter :: "pyval \<Rightarrow> py_error + pyval list" where
  "py_iter (PList xs) = Inr xs"
| "py_iter (PStr s) = Inr (map (\<lambda>c. PStr [c]) s)"
| "py_iter (PDict kvs) = Inr (map (\<lambda>kv. PStr (fst kv)) kvs)"
| "py_iter PNone = Inl TypeError"
| "py_iter (PBool b) = Inl TypeError"
| "py_iter (PInt i) = Inl TypeError"

section \<open>Flow items, display instructions and effects\<close>

text \<open>
  The dicts the handler builds: \<open>tool_info\<close> (keys \<open>name\<close>, \<open>input\<close>, \<open>tool_use_id\<close>),
  \<open>result_info\<close> (keys \<open>status\<close>, \<open>content\<close>) and the three kinds of entry of
  \<open>conversation_flow\<close>, told apart by their \<open>type\<close> key.
\<close>

record tool_info =
  info_name :: pyval
  info_input :: pyval
  info_tool_use_id :: pyval

record result_info =
  info_status :: pyval
  info_content :: pyval

datatype flow_item =
    Flow_text pyval
  | Flow_tool_call tool_info
  | Flow_tool_result result_info

text \<open>
  Calls on the display surface. \<open>St_info_tool_call n\<close> is the tool-call banner
  \<open>st.info\<close> formats with \<open>n\<close>; \<open>St_success\<close> is the success badge; \<open>St_error s\<close> is the
  failure badge formatted with \<open>s\<close>; \<open>St_code_str v\<close> is \<open>st.code(str(v))\<close>;
  \<open>St_expander title expanded body\<close> is a \<open>with st.expander(...)\<close> block.
\<close>

datatype instr =
    St_write pyval
  | St_info_tool_call pyval
  | St_success
  | St_error pyval
  | St_code pyval
  | St_code_str pyval
  | St_json pyval
  | St_expander string bool "instr list"

text \<open>
  The handler never reads the session state: it only writes to the display and adds to
  the buffers. One call is therefore the list of writes it performs, in order, and the
  exception that ended it, if any. Writes performed before a raise stay performed.
\<close>

datatype effect =
    Display instr
  | Accumulated_text_add string
  | All_agent_text_add string
  | Flow_append flow_item
  | Tools_append tool_info
  | Results_append result_info

type_synonym 'a trace = "'a list \<times> py_error option"

text \<open>A \<open>for\<close> loop: the body runs on each element until one raises.\<close>

fun for_each :: "('a \<Rightarrow> 'b trace) \<Rightarrow> 'a list \<Rightarrow> 'b trace" where
  "for_each body [] = ([], None)"
| "for_each body (x # xs) =
     (case body x of
        (out, Some e) \<Rightarrow> (out, Some e)
      | (out, None) \<Rightarrow> (case for_each body xs of (out', r) \<Rightarrow> (out @ out', r)))"

text \<open>
  The loop over the parts of a tool result (lines 120-124, 181-185 and 207-211):
  \<open>if "text" in item: st.code(item["text"]) elif "json" in item: st.json(item["json"])\<close>.
\<close>

definition show_part :: "pyval \<Rightarrow> instr trace" where
  "show_part item =
     (case py_in ''text'' item of
        Inl e \<Rightarrow> ([], Some e)
      | Inr True \<Rightarrow>
          (case py_getitem item ''text'' of
             Inl e \<Rightarrow> ([], Some e)
           | Inr t \<Rightarrow> ([St_code t], None))
      | Inr False \<Rightarrow>
          (case py_in ''json'' item of
             Inl e \<Rightarrow> ([], Some e)
           | Inr True \<Rightarrow>
               (case py_getitem item ''json'' of
                  Inl e \<Rightarrow> ([], Some e)
                | Inr j \<Rightarrow> ([St_json j], None))
           | Inr False \<Rightarrow> ([], None)))"

definition show_parts :: "pyval \<Rightarrow> instr trace" where
  "show_parts v =
     (case py_iter v of
        Inl e \<Rightarrow> ([], Some e)
      | Inr items \<Rightarrow> for_each show_part items)"

text \<open>A \<open>with st.expander(title, expanded=b)\<close> block around a body that may raise.\<close>

definition expander :: "string \<Rightarrow> bool \<Rightarrow> instr trace \<Rightarrow> instr trace" where
  "expander title b body = ([St_expander title b (fst body)], snd body)"

text \<open>Two statement sequences one after the other: the second runs if the first did not raise.\<close>

definition and_then :: "'a trace \<Rightarrow> 'a trace \<Rightarrow> 'a trace" where
  "and_then p q =
     (case p of
        (out, Some e) \<Rightarrow> (out, Some e)
      | (out, None) \<Rightarrow> (out @ fst q, snd q))"

section \<open>The callback handler (lines 44-142)\<close>

text \<open>One element of an assistant message's content (lines 66-99).\<close>

definition assistant_content :: "pyval \<Rightarrow> effect trace" where
  "assistant_content content =
     (case py_in ''text'' content of
        Inl e \<Rightarrow> ([], Some e)
      | Inr True \<Rightarrow>
          (case py_getitem content ''text'' of
             Inl e \<Rightarrow> ([], Some e)
           | Inr text_content \<Rightarrow>
               ([Display (St_write text_content), Flow_append (Flow_text text_content)], None))
      | Inr False \<Rightarrow>
          (case py_in ''toolUse'' content of
             Inl e \<Rightarrow> ([], Some e)
           | Inr False \<Rightarrow> ([], None)
           | Inr True \<Rightarrow>
               (case py_getitem content ''toolUse'' of
                  Inl e \<Rightarrow> ([], Some e)
                | Inr tool_use \<Rightarrow>
                    (case py_getitem tool_use ''name'' of
                       Inl e \<Rightarrow> ([], Some e)
                     | Inr n \<Rightarrow>
                         (case py_getitem tool_use ''input'' of
                            Inl e \<Rightarrow> ([], Some e)
                          | Inr i \<Rightarrow>
                              (case py_getitem tool_use ''toolUseId'' of
                                 Inl e \<Rightarrow> ([], Some e)
                               | Inr u \<Rightarrow>
                                   (let tool_info =
                                      \<lparr>info_name = n, info_input = i, info_tool_use_id = u\<rparr>
                                    in ([Display (St_info_tool_call n),
                                         Display (St_expander ''Tool Input'' False [St_json i]),
                                         Flow_append (Flow_tool_call tool_info),
                                         Tools_append tool_info], None))))))))"

text \<open>
  The live display of a tool result (lines 113-129). \<open>result\<close> is a dict here: the two
  \<open>.get\<close> calls of lines 108-109 have succeeded.
\<close>

definition live_result :: "(string \<times> pyval) list \<Rightarrow> pyval \<Rightarrow> pyval \<Rightarrow> instr trace" where
  "live_result result status result_content =
     (if status = PStr ''success''
      then and_then ([St_success], None)
             (if truthy result_content
              then expander ''Tool Result'' True (show_parts result_content)
              else ([], None))
      else and_then
             ([St_error (dict_get result ''status'' (PStr ''Failed''))], None)
             (case map_of result ''content'' of
                None \<Rightarrow> ([], None)
              | Some c \<Rightarrow> expander ''Error Details'' True ([St_code_str c], None)))"

text \<open>
  One element of a user message's content (lines 104-138). Only a dict has \<open>.get\<close>:
  on any other \<open>result\<close> line 108 raises \<open>AttributeError\<close>.
\<close>

definition user_content :: "pyval \<Rightarrow> effect trace" where
  "user_content content =
     (case py_in ''toolResult'' content of
        Inl e \<Rightarrow> ([], Some e)
      | Inr False \<Rightarrow> ([], None)
      | Inr True \<Rightarrow>
          (case py_getitem content ''toolResult'' of
             Inl e \<Rightarrow> ([], Some e)
           | Inr result \<Rightarrow>
               (case result of
                  PDict kvs \<Rightarrow>
                    (let status = dict_get kvs ''status'' PNone;
                         result_content = dict_get kvs ''content'' (PList []);
                         result_info =
                           \<lparr>info_status = status, info_content = result_content\<rparr>;
                         shown = live_result kvs status result_content
                     in and_then (map Display (fst shown), snd shown)
                          ([Flow_append (Flow_tool_result result_info),
                            Results_append result_info], None))
                | _ \<Rightarrow> ([], Some AttributeError))))"

text \<open>
  A complete message (lines 60-138). \<open>message.get("role")\<close> needs a dict; the content is
  iterated as Python iterates it.
\<close>

definition handle_message :: "pyval \<Rightarrow> effect trace" where
  "handle_message message =
     (case message of
        PDict kvs \<Rightarrow>
          (let role = dict_get kvs ''role'' PNone in
           case map_of kvs ''content'' of
             None \<Rightarrow> ([], None)
           | Some c \<Rightarrow>
               if role = PStr ''assistant''
               then (case py_iter c of
                       Inl e \<Rightarrow> ([], Some e)
                     | Inr elems \<Rightarrow> for_each assistant_content elems)
               else if role = PStr ''user''
               then (case py_iter c of
                       Inl e \<Rightarrow> ([], Some e)
                     | Inr elems \<Rightarrow> for_each user_content elems)
               else ([], None))
      | _ \<Rightarrow> ([], Some AttributeError))"

text \<open>
  The first test of the handler: \<open>"data" in kwargs and kwargs["data"]\<close>. It gives the
  delta when the key is there with a truthy value.
\<close>

type_synonym event = "(string \<times> pyval) list"

definition text_delta :: "event \<Rightarrow> pyval option" where
  "text_delta kwargs =
     (case map_of kwargs ''data'' of
        None \<Rightarrow> None
      | Some d \<Rightarrow> if truthy d then Some d else None)"

text \<open>
  \<open>callback_handler(**kwargs)\<close>. Adding a value that is not a string to the text buffer
  raises \<open>TypeError\<close> at the first \<open>+=\<close>, before either buffer has changed.
\<close>

definition callback_handler :: "event \<Rightarrow> effect trace" where
  "callback_handler kwargs =
     (case text_delta kwargs of
        Some d \<Rightarrow>
          (case d of
             PStr s \<Rightarrow> ([Accumulated_text_add s, All_agent_text_add s], None)
           | _ \<Rightarrow> ([], Some TypeError))
      | None \<Rightarrow>
          if ''current_tool_use'' \<in> set (map fst kwargs) then ([], None)
          else (case map_of kwargs ''message'' of
                  Some message \<Rightarrow> handle_message message
                | None \<Rightarrow> ([], None)))"

section \<open>Session state\<close>

text \<open>
  The per-turn buffers of \<open>st.session_state\<close> and the transcript \<open>messages\<close>. A stored
  message is a dict with the keys \<open>role\<close> and \<open>content\<close> and, optionally,
  \<open>conversation_flow\<close>, \<open>tools\<close> and \<open>results\<close>: an absent key is \<open>None\<close>.
\<close>

record message =
  msg_role :: string
  msg_content :: string
  msg_conversation_flow :: "flow_item list option"
  msg_tools :: "tool_info list option"
  msg_results :: "result_info list option"

record session =
  accumulated_text :: string
  current_message_tools :: "tool_info list"
  current_message_results :: "result_info list"
  current_message_accumulated :: string
  all_agent_text :: string
  conversation_flow :: "flow_item list"
  messages :: "message list"

fun apply_effect :: "effect \<Rightarrow> session \<Rightarrow> session" where
  "apply_effect (Display i) st = st"
| "apply_effect (Accumulated_text_add s) st = st\<lparr>accumulated_text := accumulated_text st @ s\<rparr>"
| "apply_effect (All_agent_text_add s) st = st\<lparr>all_agent_text := all_agent_text st @ s\<rparr>"
| "apply_effect (Flow_append x) st = st\<lparr>conversation_flow := conversation_flow st @ [x]\<rparr>"
| "apply_effect (Tools_append t) st =
     st\<lparr>current_message_tools := current_message_tools st @ [t]\<rparr>"
| "apply_effect (Results_append r) st =
     st\<lparr>current_message_results := current_message_results st @ [r]\<rparr>"

text \<open>One call of the handler on the session: its writes, and the exception if it raised.\<close>

definition handle_event :: "event \<Rightarrow> session \<Rightarrow> session \<times> py_error option" where
  "handle_event kwargs st =
     (fold apply_effect (fst (callback_handler kwargs)) st, snd (callback_handler kwargs))"

text \<open>Lines 256-261.\<close>

definition reset :: "session \<Rightarrow> session" where
  "reset st =
     st\<lparr>accumulated_text := [],
        current_message_tools := [],
        current_message_results := [],
        current_message_accumulated := [],
        all_agent_text := [],
        conversation_flow := []\<rparr>"

text \<open>
  The agent, seen from the application: during one blocking call it fires the callback
  on a sequence of events and then returns a value or raises. \<open>run_outcome\<close> is the
  exception, or the returned value as \<open>str\<close> prints it. An exception raised by the
  callback ends the call: it is the exception the caller sees.
\<close>

record agent_run =
  run_events :: "event list"
  run_outcome :: "py_error + string"

fun feed :: "event list \<Rightarrow> session \<Rightarrow> session \<times> py_error option" where
  "feed [] st = (st, None)"
| "feed (kwargs # rest) st =
     (case handle_event kwargs st of
        (st', Some e) \<Rightarrow> (st', Some e)
      | (st', None) \<Rightarrow> feed rest st')"

text \<open>The events the callback is fired on: up to and including the first that raises.\<close>

fun delivered :: "event list \<Rightarrow> event list" where
  "delivered [] = []"
| "delivered (kwargs # rest) =
     kwargs # (if snd (callback_handler kwargs) = None then delivered rest else [])"

text \<open>The exception that ends the event stream, if a call of the handler raises.\<close>

fun first_error :: "event list \<Rightarrow> py_error option" where
  "first_error [] = None"
| "first_error (kwargs # rest) =
     (case snd (callback_handler kwargs) of
        Some e \<Rightarrow> Some e
      | None \<Rightarrow> first_error rest)"

definition invoke :: "agent_run \<Rightarrow> session \<Rightarrow> session \<times> (py_error + string)" where
  "invoke run st =
     (case feed (run_events run) st of
        (st', Some e) \<Rightarrow> (st', Inl e)
      | (st', None) \<Rightarrow> (st', run_outcome run))"

text \<open>Lines 276-287: the assistant message built from the buffers.\<close>

definition message_data :: "session \<Rightarrow> string \<Rightarrow> message" where
  "message_data st result =
     \<lparr>msg_role = ''assistant'',
      msg_content = (if all_agent_text st \<noteq> [] then all_agent_text st else result),
      msg_conversation_flow = Some (conversation_flow st),
      msg_tools =
        (if current_message_tools st \<noteq> [] then Some (current_message_tools st) else None),
      msg_results =
        (if current_message_results st \<noteq> [] then Some (current_message_results st)
         else None)\<rparr>"

definition user_message :: "string \<Rightarrow> message" where
  "user_message prompt =
     \<lparr>msg_role = ''user'', msg_content = prompt, msg_conversation_flow = None,
      msg_tools = None, msg_results = None\<rparr>"

text \<open>
  One submission (lines 223-295), without the file upload and the display calls around
  the agent call: the user message is appended, the buffers are reset, the agent runs,
  and the assistant message is appended if the agent returned.
\<close>

definition submit :: "string \<Rightarrow> agent_run \<Rightarrow> session \<Rightarrow> session \<times> py_error option" where
  "submit prompt run st =
     (let st1 = st\<lparr>messages := messages st @ [user_message prompt]\<rparr>;
          st2 = reset st1
      in case invoke run st2 of
           (st3, Inl e) \<Rightarrow> (st3, Some e)
         | (st3, Inr result) \<Rightarrow>
             (st3\<lparr>messages := messages st3 @ [message_data st3 result]\<rparr>, None))"

text \<open>The \<open>Clear Chat History\<close> button (line 303).\<close>

definition clear_chat :: "session \<Rightarrow> session" where
  "clear_chat st = st\<lparr>messages := []\<rparr>"

section \<open>Replaying the transcript (lines 160-211)\<close>





section \<open>What a run of writes adds to each buffer\<close>

fun flow_of_effect :: "effect \<Rightarrow> flow_item list" where
  "flow_of_effect (Flow_append x) = [x]"
| "flow_of_effect _ = []"

fun tools_of_effect :: "effect \<Rightarrow> tool_info list" where
  "tools_of_effect (Tools_append t) = [t]"
| "tools_of_effect _ = []"

fun results_of_effect :: "effect \<Rightarrow> result_info list" where
  "results_of_effect (Results_append r) = [r]"
| "results_of_effect _ = []"

fun all_text_of_effect :: "effect \<Rightarrow> string" where
  "all_text_of_effect (All_agent_text_add s) = s"
| "all_text_of_effect _ = []"

fun accumulated_text_of_effect :: "effect \<Rightarrow> string" where
  "accumulated_text_of_effect (Accumulated_text_add s) = s"
| "accumulated_text_of_effect _ = []"

fun display_of_effect :: "effect \<Rightarrow> instr list" where
  "display_of_effect (Display i) = [i]"
| "display_of_effect _ = []"

definition flow_appends :: "effect list \<Rightarrow> flow_item list" where
  "flow_appends es = concat (map flow_of_effect es)"

definition tools_appends :: "effect list \<Rightarrow> tool_info list" where
  "tools_appends es = concat (map tools_of_effect es)"

definition results_appends :: "effect list \<Rightarrow> result_info list" where
  "results_appends es = concat (map results_of_effect es)"

definition all_text_adds :: "effect list \<Rightarrow> string" where
  "all_text_adds es = concat (map all_text_of_effect es)"

definition accumulated_text_adds :: "effect list \<Rightarrow> string" where
  "accumulated_text_adds es = concat (map accumulated_text_of_effect es)"

definition displayed :: "effect list \<Rightarrow> instr list" where
  "displayed es = concat (map display_of_effect es)"

text \<open>The flow items one event appends, and the filters of a flow log by variant.\<close>

definition emitted :: "event \<Rightarrow> flow_item list" where
  "emitted kwargs = flow_appends (fst (callback_handler kwargs))"

fun tool_call_of :: "flow_item \<Rightarrow> tool_info list" where
  "tool_call_of (Flow_tool_call t) = [t]"
| "tool_call_of _ = []"

fun tool_result_of :: "flow_item \<Rightarrow> result_info list" where
  "tool_result_of (Flow_tool_result r) = [r]"
| "tool_result_of _ = []"

fun text_chunk_of :: "flow_item \<Rightarrow> pyval list" where
  "text_chunk_of (Flow_text c) = [c]"
| "text_chunk_of _ = []"

definition tool_calls_in :: "flow_item list \<Rightarrow> tool_info list" where
  "tool_calls_in flow = concat (map tool_call_of flow)"

definition tool_results_in :: "flow_item list \<Rightarrow> result_info list" where
  "tool_results_in flow = concat (map tool_result_of flow)"

definition text_chunks_in :: "flow_item list \<Rightarrow> pyval list" where
  "text_chunks_in flow = concat (map text_chunk_of flow)"

text \<open>The raw text deltas of an event sequence: the string values the first test accepts.\<close>

definition delta_text :: "event \<Rightarrow> string list" where
  "delta_text kwargs = (case text_delta kwargs of Some (PStr s) \<Rightarrow> [s] | _ \<Rightarrow> [])"

definition delta_texts :: "event list \<Rightarrow> string list" where
  "delta_texts evs = concat (map delta_text evs)"

text \<open>All the writes of an event sequence, and the mirror property of a run of writes.\<close>

definition writes :: "event list \<Rightarrow> effect list" where
  "writes evs = concat (map (\<lambda>kwargs. fst (callback_handler kwargs)) evs)"

definition mirrored :: "effect list \<Rightarrow> bool" where
  "mirrored es \<longleftrightarrow>
     tools_appends es = tool_calls_in (flow_appends es) \<and>
     results_appends es = tool_results_in (flow_appends es)"

text \<open>The text chunks of a flow log that are strings.\<close>

fun chunk_text :: "flow_item \<Rightarrow> string list" where
  "chunk_text (Flow_text (PStr s)) = [s]"
| "chunk_text _ = []"

definition chunk_texts :: "flow_item list \<Rightarrow> string list" where
  "chunk_texts flow = concat (map chunk_text flow)"

section \<open>The specification's readings, for comparison with the code\<close>

text \<open>
  The display text as the data-model invariant words it: the concatenation of the text
  chunks of the flow, and the agent's returned value when there is none.
\<close>

definition display_text_of_chunks :: "flow_item list \<Rightarrow> string \<Rightarrow> string" where
  "display_text_of_chunks flow result =
     (if chunk_texts flow = [] then result else concat (chunk_texts flow))"


section \<open>Concrete inputs\<close>

text \<open>The session as lines 19-42 set it up.\<close>

definition initial_session :: session where
  "initial_session =
     \<lparr>accumulated_text = [], current_message_tools = [], current_message_results = [],
      current_message_accumulated = [], all_agent_text = [], conversation_flow = [],
      messages = []\<rparr>"

definition calculator_call :: tool_info where
  "calculator_call =
     \<lparr>info_name = PStr ''calculator'', info_input = PDict [(''expr'', PStr ''2+2'')],
      info_tool_use_id = PStr ''t1''\<rparr>"

definition calculator_result :: result_info where
  "calculator_result =
     \<lparr>info_status = PStr ''success'', info_content = PList [PDict [(''text'', PStr ''4'')]]\<rparr>"

definition assistant_event :: event where
  "assistant_event =
     [(''message'', PDict
        [(''role'', PStr ''assistant''),
         (''content'', PList
            [PDict [(''text'', PStr ''Let me check that.'')],
             PDict [(''toolUse'', PDict
                [(''name'', PStr ''calculator''),
                 (''input'', PDict [(''expr'', PStr ''2+2'')]),
                 (''toolUseId'', PStr ''t1'')])]])])]"

definition tool_result_event :: event where
  "tool_result_event =
     [(''message'', PDict
        [(''role'', PStr ''user''),
         (''content'', PList
            [PDict [(''toolResult'', PDict
                [(''status'', PStr ''success''),
                 (''content'', PList [PDict [(''text'', PStr ''4'')]])])]])])]"

definition scenario :: "event list" where
  "scenario =
     [[(''data'', PStr ''Let me check '')], [(''data'', PStr ''that.'')],
      assistant_event, tool_result_event]"

text \<open>A tool call whose \<open>toolUse\<close> dict has no \<open>name\<close>.\<close>

definition nameless_tool_use :: event where
  "nameless_tool_use =
     [(''message'', PDict
        [(''role'', PStr ''assistant''),
         (''content'', PList
            [PDict [(''toolUse'', PDict
                [(''input'', PDict [(''expr'', PStr ''2+2'')]),
                 (''toolUseId'', PStr ''t1'')])]])])]"

text \<open>A tool result whose \<open>toolResult\<close> dict is empty.\<close>

definition bare_tool_result :: event where
  "bare_tool_result =
     [(''message'', PDict
        [(''role'', PStr ''user''),
         (''content'', PList [PDict [(''toolResult'', PDict [])]])])]"

text \<open>An agent that sends one completed text and no delta, and returns \<open>R\<close>.\<close>

definition chunk_only_run :: agent_run where
  "chunk_only_run =
     \<lparr>run_events =
        [[(''message'', PDict
            [(''role'', PStr ''assistant''),
             (''content'', PList [PDict [(''text'', PStr ''hello'')]])])]],
      run_outcome = Inr ''R''\<rparr>"

text \<open>An agent that sends one delta and then fails.\<close>

definition failing_run :: agent_run where
  "failing_run =
     \<lparr>run_events = [[(''data'', PStr ''Let me '')]],
      run_outcome = Inl (Agent_error ''throttled'')\<rparr>"

text \<open>An event that is a text delta and carries a completed message as well.\<close>

definition delta_with_message :: event where
  "delta_with_message = (''data'', PStr ''hi'') # assistant_event"


section \<open>The buffers as list objects\<close>

text \<open>
  The buffers \<open>conversation_flow\<close>, \<open>current_message_tools\<close> and
  \<open>current_message_results\<close> are Python lists: \<open>append\<close> changes the list object in
  place, \<open>= []\<close> binds the name to a new object, and \<open>.copy()\<close> makes a new object with
  the same elements. To see what a stored message shares with the buffers, the lists live
  in a store from addresses to contents, one store per kind of list, and names and stored
  messages hold addresses. The elements themselves are never changed after they are
  built, and strings are immutable, so both are kept as values.
\<close>

type_synonym addr = nat

record stored_message =
  sm_role :: string
  sm_content :: string
  sm_conversation_flow :: "addr option"
  sm_tools :: "addr option"
  sm_results :: "addr option"

record heap_session =
  flow_heap :: "addr \<Rightarrow> flow_item list"
  tool_heap :: "addr \<Rightarrow> tool_info list"
  result_heap :: "addr \<Rightarrow> result_info list"
  next_addr :: addr
  accumulated_text_h :: string
  current_message_tools_h :: addr
  current_message_results_h :: addr
  current_message_accumulated_h :: string
  all_agent_text_h :: string
  conversation_flow_h :: addr
  messages_h :: "stored_message list"

text \<open>Lines 19-42: three new lists, an empty transcript.\<close>

definition initial_heap_session :: heap_session where
  "initial_heap_session =
     \<lparr>flow_heap = (\<lambda>a. []), tool_heap = (\<lambda>a. []), result_heap = (\<lambda>a. []),
      next_addr = 3,
      accumulated_text_h = [], current_message_tools_h = 0, current_message_results_h = 1,
      current_message_accumulated_h = [], all_agent_text_h = [], conversation_flow_h = 2,
      messages_h = []\<rparr>"

text \<open>The writes of the handler: \<open>append\<close> changes the object the name is bound to.\<close>

fun apply_effect_h :: "effect \<Rightarrow> heap_session \<Rightarrow> heap_session" where
  "apply_effect_h (Display i) h = h"
| "apply_effect_h (Accumulated_text_add s) h =
     h\<lparr>accumulated_text_h := accumulated_text_h h @ s\<rparr>"
| "apply_effect_h (All_agent_text_add s) h = h\<lparr>all_agent_text_h := all_agent_text_h h @ s\<rparr>"
| "apply_effect_h (Flow_append x) h =
     h\<lparr>flow_heap := (flow_heap h)
          (conversation_flow_h h := flow_heap h (conversation_flow_h h) @ [x])\<rparr>"
| "apply_effect_h (Tools_append t) h =
     h\<lparr>tool_heap := (tool_heap h)
          (current_message_tools_h h := tool_heap h (current_message_tools_h h) @ [t])\<rparr>"
| "apply_effect_h (Results_append r) h =
     h\<lparr>result_heap := (result_heap h)
          (current_message_results_h h := result_heap h (current_message_results_h h) @ [r])\<rparr>"

text \<open>Lines 256-261: each \<open>= []\<close> is a new list object.\<close>

definition reset_h :: "heap_session \<Rightarrow> heap_session" where
  "reset_h h =
     h\<lparr>tool_heap := (tool_heap h)(next_addr h := []),
       result_heap := (result_heap h)(next_addr h + 1 := []),
       flow_heap := (flow_heap h)(next_addr h + 2 := []),
       accumulated_text_h := [],
       current_message_tools_h := next_addr h,
       current_message_results_h := next_addr h + 1,
       current_message_accumulated_h := [],
       all_agent_text_h := [],
       conversation_flow_h := next_addr h + 2,
       next_addr := next_addr h + 3\<rparr>"

text \<open>
  Lines 276-289: each \<open>.copy()\<close> is a new list object with the contents of the buffer;
  the tool and result lists are copied only when they are not empty.
\<close>

definition finalize_h :: "string \<Rightarrow> heap_session \<Rightarrow> heap_session" where
  "finalize_h result h =
     h\<lparr>flow_heap := (flow_heap h)(next_addr h := flow_heap h (conversation_flow_h h)),
       tool_heap :=
         (if tool_heap h (current_message_tools_h h) \<noteq> []
          then (tool_heap h)(next_addr h + 1 := tool_heap h (current_message_tools_h h))
          else tool_heap h),
       result_heap :=
         (if result_heap h (current_message_results_h h) \<noteq> []
          then (result_heap h)(next_addr h + 2 := result_heap h (current_message_results_h h))
          else result_heap h),
       next_addr := next_addr h + 3,
       messages_h := messages_h h @
         [\<lparr>sm_role = ''assistant'',
           sm_content = (if all_agent_text_h h \<noteq> [] then all_agent_text_h h else result),
           sm_conversation_flow = Some (next_addr h),
           sm_tools =
             (if tool_heap h (current_message_tools_h h) \<noteq> [] then Some (next_addr h + 1)
              else None),
           sm_results =
             (if result_heap h (current_message_results_h h) \<noteq> [] then Some (next_addr h + 2)
              else None)\<rparr>]\<rparr>"

text \<open>
  What the application does to the session, one action at a time: line 247, lines
  256-261, one call of the handler, lines 276-289, and line 303.
\<close>

datatype action = User_prompt string | Reset | Event event | Finalize string | Clear_chat

fun step_h :: "action \<Rightarrow> heap_session \<Rightarrow> heap_session" where
  "step_h (User_prompt prompt) h =
     h\<lparr>messages_h := messages_h h @
         [\<lparr>sm_role = ''user'', sm_content = prompt, sm_conversation_flow = None,
           sm_tools = None, sm_results = None\<rparr>]\<rparr>"
| "step_h Reset h = reset_h h"
| "step_h (Event kwargs) h = fold apply_effect_h (fst (callback_handler kwargs)) h"
| "step_h (Finalize result) h = finalize_h result h"
| "step_h Clear_chat h = h\<lparr>messages_h := []\<rparr>"

text \<open>The same actions on the session of values.\<close>

fun step :: "action \<Rightarrow> session \<Rightarrow> session" where
  "step (User_prompt prompt) st = st\<lparr>messages := messages st @ [user_message prompt]\<rparr>"
| "step Reset st = reset st"
| "step (Event kwargs) st = fst (handle_event kwargs st)"
| "step (Finalize result) st = st\<lparr>messages := messages st @ [message_data st result]\<rparr>"
| "step Clear_chat st = clear_chat st"

text \<open>The actions of one submission.\<close>

definition submit_actions :: "string \<Rightarrow> agent_run \<Rightarrow> action list" where
  "submit_actions prompt run =
     User_prompt prompt # Reset # map Event (delivered (run_events run)) @
     (case first_error (run_events run) of
        Some e \<Rightarrow> []
      | None \<Rightarrow> (case run_outcome run of Inl e \<Rightarrow> [] | Inr result \<Rightarrow> [Finalize result]))"

text \<open>What a stored message and a session hold, read through the store.\<close>

definition view_message :: "heap_session \<Rightarrow> stored_message \<Rightarrow> message" where
  "view_message h sm =
     \<lparr>msg_role = sm_role sm,
      msg_content = sm_content sm,
      msg_conversation_flow = map_option (flow_heap h) (sm_conversation_flow sm),
      msg_tools = map_option (tool_heap h) (sm_tools sm),
      msg_results = map_option (result_heap h) (sm_results sm)\<rparr>"

definition view_session :: "heap_session \<Rightarrow> session" where
  "view_session h =
     \<lparr>accumulated_text = accumulated_text_h h,
      current_message_tools = tool_heap h (current_message_tools_h h),
      current_message_results = result_heap h (current_message_results_h h),
      current_message_accumulated = current_message_accumulated_h h,
      all_agent_text = all_agent_text_h h,
      conversation_flow = flow_heap h (conversation_flow_h h),
      messages = map (view_message h) (messages_h h)\<rparr>"

text \<open>
  A field of a stored message is apart from a buffer when it holds no address, or an
  allocated address that is not the buffer's. A stored message is kept when its three
  fields are apart from the three buffers, and a session is separated when the buffers are
  allocated and every stored message is kept.
\<close>

definition apart :: "addr \<Rightarrow> addr \<Rightarrow> addr option \<Rightarrow> bool" where
  "apart limit buffer field =
     (case field of None \<Rightarrow> True | Some a \<Rightarrow> a < limit \<and> a \<noteq> buffer)"

definition kept :: "heap_session \<Rightarrow> stored_message \<Rightarrow> bool" where
  "kept h sm \<longleftrightarrow>
     apart (next_addr h) (conversation_flow_h h) (sm_conversation_flow sm) \<and>
     apart (next_addr h) (current_message_tools_h h) (sm_tools sm) \<and>
     apart (next_addr h) (current_message_results_h h) (sm_results sm)"

definition separated :: "heap_session \<Rightarrow> bool" where
  "separated h \<longleftrightarrow>
     conversation_flow_h h < next_addr h \<and>
     current_message_tools_h h < next_addr h \<and>
     current_message_results_h h < next_addr h \<and>
     list_all (kept h) (messages_h h)"

text \<open>A first turn with a tool call, and a second submission that follows it.\<close>

definition first_turn :: "action list" where
  "first_turn = User_prompt ''what is 2+2?'' # Reset # map Event scenario @ [Finalize ''4'']"

definition second_turn :: "action list" where
  "second_turn =
     [User_prompt ''and 3+3?'', Reset, Event [(''data'', PStr ''6'')], Event assistant_event,
      Event tool_result_event, Finalize ''6'']"

section \<open>Well-formed tool results\<close>











text \<open>
  The tool and result buffers mirror the flow buffer, and every stored message either has
  no flow key and is a user message, or holds tool calls and tool results exactly when
  its flow has some.
\<close>

definition settled :: "session \<Rightarrow> bool" where
  "settled st \<longleftrightarrow>
     current_message_tools st = tool_calls_in (conversation_flow st) \<and>
     current_message_results st = tool_results_in (conversation_flow st) \<and>
     list_all (\<lambda>m.
        (case msg_conversation_flow m of
           None \<Rightarrow> msg_role m = ''user''
         | Some flow \<Rightarrow>
             msg_tools m = (if tool_calls_in flow = [] then None else Some (tool_calls_in flow)) \<and>
             msg_results m =
               (if tool_results_in flow = [] then None else Some (tool_results_in flow))))
       (messages st)"

section \<open>Further concrete inputs\<close>



section \<open>Properties of the handler's writes\<close>

lemma flow_appends_simps [simp]:
  "flow_appends [] = []"
  "flow_appends (e # es) = flow_of_effect e @ flow_appends es"
  "flow_appends (es @ es') = flow_appends es @ flow_appends es'"
  by (simp_all add: flow_appends_def)

lemma tools_appends_simps [simp]:
  "tools_appends [] = []"
  "tools_appends (e # es) = tools_of_effect e @ tools_appends es"
  "tools_appends (es @ es') = tools_appends es @ tools_appends es'"
  by (simp_all add: tools_appends_def)

lemma results_appends_simps [simp]:
  "results_appends [] = []"
  "results_appends (e # es) = results_of_effect e @ results_appends es"
  "results_appends (es @ es') = results_appends es @ results_appends es'"
  by (simp_all add: results_appends_def)

lemma all_text_adds_simps [simp]:
  "all_text_adds [] = []"
  "all_text_adds (e # es) = all_text_of_effect e @ all_text_adds es"
  "all_text_adds (es @ es') = all_text_adds es @ all_text_adds es'"
  by (simp_all add: all_text_adds_def)

lemma tool_calls_in_simps [simp]:
  "tool_calls_in [] = []"
  "tool_calls_in (x # xs) = tool_call_of x @ tool_calls_in xs"
  "tool_calls_in (xs @ ys) = tool_calls_in xs @ tool_calls_in ys"
  by (simp_all add: tool_calls_in_def)

lemma tool_results_in_simps [simp]:
  "tool_results_in [] = []"
  "tool_results_in (x # xs) = tool_result_of x @ tool_results_in xs"
  "tool_results_in (xs @ ys) = tool_results_in xs @ tool_results_in ys"
  by (simp_all add: tool_results_in_def)

lemma appends_map_Display [simp]:
  "flow_appends (map Display is) = []"
  "tools_appends (map Display is) = []"
  "results_appends (map Display is) = []"
  "all_text_adds (map Display is) = []"
  by (induction "is") simp_all

text \<open>A property of each body's writes that is closed under append holds for the loop.\<close>

lemma for_each_fst_induct:
  assumes "P []" and "\<And>x. P (fst (body x))" and "\<And>a b. P a \<Longrightarrow> P b \<Longrightarrow> P (a @ b)"
  shows "P (fst (for_each body xs))"
proof (induction xs)
  case Nil
  show ?case using assms(1) by simp
next
  case (Cons x xs)
  show ?case using assms(2)[of x] assms(3)[OF _ Cons] 
    by (auto split: prod.splits option.splits)
qed

lemma mirrored_Nil: "mirrored []"
  by (simp add: mirrored_def)

lemma mirrored_append: "mirrored a \<Longrightarrow> mirrored b \<Longrightarrow> mirrored (a @ b)"
  by (simp add: mirrored_def)

lemma mirrored_assistant_content: "mirrored (fst (assistant_content c))"
  by (simp add: assistant_content_def mirrored_def Let_def split: sum.splits bool.splits)



lemma user_content_dict:
  assumes "py_in ''toolResult'' c = Inr True" and "py_getitem c ''toolResult'' = Inr (PDict kvs)"
  shows "user_content c =
    (map Display (fst (live_result kvs (dict_get kvs ''status'' PNone) (dict_get kvs ''content'' (PList [])))) @
       (if snd (live_result kvs (dict_get kvs ''status'' PNone) (dict_get kvs ''content'' (PList []))) = None
        then [Flow_append (Flow_tool_result \<lparr>info_status = dict_get kvs ''status'' PNone, info_content = dict_get kvs ''content'' (PList [])\<rparr>),
              Results_append \<lparr>info_status = dict_get kvs ''status'' PNone, info_content = dict_get kvs ''content'' (PList [])\<rparr>]
        else []),
     snd (live_result kvs (dict_get kvs ''status'' PNone) (dict_get kvs ''content'' (PList []))))"
  using assms
  by (cases "snd (live_result kvs (dict_get kvs ''status'' PNone) (dict_get kvs ''content'' (PList [])))")
     (simp_all add: user_content_def and_then_def Let_def)

lemma user_content_other:
  assumes "\<not> (\<exists>kvs. py_in ''toolResult'' c = Inr True \<and> py_getitem c ''toolResult'' = Inr (PDict kvs))"
  shows "fst (user_content c) = []"
  using assms
  by (simp add: user_content_def split: sum.splits bool.splits pyval.splits)

lemma mirrored_user_content: "mirrored (fst (user_content c))"
proof (cases "\<exists>kvs. py_in ''toolResult'' c = Inr True \<and> py_getitem c ''toolResult'' = Inr (PDict kvs)")
  case True
  then obtain kvs where "py_in ''toolResult'' c = Inr True" "py_getitem c ''toolResult'' = Inr (PDict kvs)"
    by blast
  then show ?thesis by (simp add: user_content_dict mirrored_def)
next
  case False
  then show ?thesis by (simp add: user_content_other mirrored_def)
qed

lemma mirrored_handle_message: "mirrored (fst (handle_message m))"
proof (cases m)
  case (PDict kvs)
  have a: "mirrored (fst (for_each assistant_content xs))" for xs
    by (rule for_each_fst_induct) (simp_all add: mirrored_Nil mirrored_assistant_content mirrored_append)
  have u: "mirrored (fst (for_each user_content xs))" for xs
    by (rule for_each_fst_induct) (simp_all add: mirrored_Nil mirrored_user_content mirrored_append)
  show ?thesis unfolding PDict
    by (simp add: handle_message_def Let_def mirrored_Nil a u split: option.splits sum.splits)
qed (simp_all add: handle_message_def mirrored_Nil)

lemma mirrored_callback_handler: "mirrored (fst (callback_handler e))"
proof (cases "text_delta e")
  case None
  then show ?thesis by (simp add: callback_handler_def mirrored_handle_message mirrored_Nil split: option.splits)
next
  case (Some d)
  then show ?thesis by (cases d) (simp_all add: callback_handler_def mirrored_def)
qed


lemma fold_apply_effect:
  "conversation_flow (fold apply_effect es st) = conversation_flow st @ flow_appends es"
  "current_message_tools (fold apply_effect es st) = current_message_tools st @ tools_appends es"
  "current_message_results (fold apply_effect es st) = current_message_results st @ results_appends es"
  "all_agent_text (fold apply_effect es st) = all_agent_text st @ all_text_adds es"
  "messages (fold apply_effect es st) = messages st"
proof (induction es arbitrary: st)
  case Nil
  { case 1 show ?case by simp }
  { case 2 show ?case by simp }
  { case 3 show ?case by simp }
  { case 4 show ?case by simp }
  { case 5 show ?case by simp }
next
  case (Cons e es)
  { case 1 show ?case by (cases e) (simp_all add: Cons.IH) }
  { case 2 show ?case by (cases e) (simp_all add: Cons.IH) }
  { case 3 show ?case by (cases e) (simp_all add: Cons.IH) }
  { case 4 show ?case by (cases e) (simp_all add: Cons.IH) }
  { case 5 show ?case by (cases e) (simp_all add: Cons.IH) }
qed

lemma feed_fold: "fst (feed evs st) = fold apply_effect (writes (delivered evs)) st"
  by (induction evs arbitrary: st) (auto simp: writes_def handle_event_def split: option.splits)

lemma feed_all_delivered: "snd (feed evs st) = None \<Longrightarrow> delivered evs = evs"
  by (induction evs arbitrary: st) (auto simp: handle_event_def split: option.splits)

lemma mirrored_writes: "mirrored (writes evs)"
  by (induction evs) (simp_all add: writes_def mirrored_Nil mirrored_append mirrored_callback_handler)

lemma flow_appends_writes: "flow_appends (writes evs) = concat (map emitted evs)"
  by (induction evs) (simp_all add: writes_def emitted_def)

text \<open>
  C1. Whatever events are fed to the handler after a reset, the flow log is the
  concatenation, in arrival order, of what each delivered event appended (nothing is
  reordered or dropped, and a repeated event appends again); every event is delivered
  unless the handler raised; and the tool-call and tool-result lists are the flow log
  filtered to their variant, in order.
\<close>

theorem flow_log_order_and_views:
  "conversation_flow (fst (feed evs (reset st))) = concat (map emitted (delivered evs)) \<and>
   (snd (feed evs (reset st)) = None \<longrightarrow> delivered evs = evs) \<and>
   current_message_tools (fst (feed evs (reset st))) =
     tool_calls_in (conversation_flow (fst (feed evs (reset st)))) \<and>
   current_message_results (fst (feed evs (reset st))) =
     tool_results_in (conversation_flow (fst (feed evs (reset st))))"
  using mirrored_writes [of "delivered evs"] feed_all_delivered [of evs "reset st"]
  by (simp add: feed_fold fold_apply_effect flow_appends_writes reset_def mirrored_def)



subsection \<open>Submissions\<close>

lemma feed_messages: "messages (fst (feed evs st)) = messages st"
  by (simp add: feed_fold fold_apply_effect)

lemma invoke_fst: "fst (invoke run st) = fst (feed (run_events run) st)"
  by (simp add: invoke_def split: prod.splits option.splits)

lemma submit_unfold:
  "submit prompt run st =
     (case snd (invoke run (reset (st\<lparr>messages := messages st @ [user_message prompt]\<rparr>))) of
        Inl e \<Rightarrow> (fst (invoke run (reset (st\<lparr>messages := messages st @ [user_message prompt]\<rparr>))), Some e)
      | Inr result \<Rightarrow>
          (fst (invoke run (reset (st\<lparr>messages := messages st @ [user_message prompt]\<rparr>)))
             \<lparr>messages := messages st @ [user_message prompt,
                 message_data (fst (invoke run (reset (st\<lparr>messages := messages st @ [user_message prompt]\<rparr>)))) result]\<rparr>,
           None))"
proof -
  define st2 where "st2 = reset (st\<lparr>messages := messages st @ [user_message prompt]\<rparr>)"
  have m: "messages (fst (invoke run st2)) = messages st @ [user_message prompt]"
    by (simp add: invoke_fst feed_messages st2_def reset_def)
  show ?thesis
    unfolding submit_def Let_def st2_def [symmetric]
    using m by (cases "invoke run st2") (simp split: sum.splits)
qed

lemma invoke_returns:
  "snd (invoke run st) = Inr r \<longleftrightarrow> snd (feed (run_events run) st) = None \<and> run_outcome run = Inr r"
  by (simp add: invoke_def split: prod.splits option.splits)

text \<open>
  C9. If the agent call raises (by itself or through the callback), the submission
  raises the same exception and the transcript is the one before the call with the user
  message added: no assistant message is appended.
\<close>

theorem failed_invocation_appends_no_turn:
  assumes "snd (invoke run (reset (st\<lparr>messages := messages st @ [user_message prompt]\<rparr>))) = Inl e"
  shows "snd (submit prompt run st) = Some e \<and>
         messages (fst (submit prompt run st)) = messages st @ [user_message prompt]"
  using assms
  by (simp add: submit_unfold invoke_fst feed_messages reset_def)

subsection \<open>The aggregate text\<close>

lemma all_text_assistant_content: "all_text_adds (fst (assistant_content c)) = []"
  by (simp add: assistant_content_def Let_def split: sum.splits bool.splits)

lemma all_text_user_content: "all_text_adds (fst (user_content c)) = []"
proof (cases "\<exists>kvs. py_in ''toolResult'' c = Inr True \<and> py_getitem c ''toolResult'' = Inr (PDict kvs)")
  case True
  then obtain kvs where "py_in ''toolResult'' c = Inr True" "py_getitem c ''toolResult'' = Inr (PDict kvs)"
    by blast
  then show ?thesis by (simp add: user_content_dict)
next
  case False
  then show ?thesis by (simp add: user_content_other)
qed

lemma all_text_handle_message: "all_text_adds (fst (handle_message m)) = []"
proof (cases m)
  case (PDict kvs)
  have a: "all_text_adds (fst (for_each assistant_content xs)) = []" for xs
    by (rule for_each_fst_induct) (simp_all add: all_text_assistant_content)
  have u: "all_text_adds (fst (for_each user_content xs)) = []" for xs
    by (rule for_each_fst_induct) (simp_all add: all_text_user_content)
  show ?thesis unfolding PDict
    by (simp add: handle_message_def Let_def a u split: option.splits sum.splits)
qed (simp_all add: handle_message_def)

lemma all_text_callback_handler:
  "all_text_adds (fst (callback_handler e)) = concat (delta_text e)"
proof (cases "text_delta e")
  case None
  then show ?thesis
    by (simp add: callback_handler_def all_text_handle_message delta_text_def split: option.splits)
next
  case (Some d)
  then show ?thesis by (cases d) (simp_all add: callback_handler_def delta_text_def)
qed

lemma all_text_writes: "all_text_adds (writes evs) = concat (delta_texts evs)"
  by (induction evs) (simp_all add: writes_def delta_texts_def all_text_callback_handler)

lemma delta_text_nonempty: "s \<in> set (delta_text e) \<Longrightarrow> s \<noteq> []"
  by (auto simp: delta_text_def text_delta_def split: option.splits pyval.splits if_splits)

lemma concat_delta_texts_empty: "concat (delta_texts evs) = [] \<longleftrightarrow> delta_texts evs = []"
proof
  assume c: "concat (delta_texts evs) = []"
  show "delta_texts evs = []"
  proof (rule ccontr)
    assume "delta_texts evs \<noteq> []"
    then obtain s where s: "s \<in> set (delta_texts evs)" by (cases "delta_texts evs") auto
    then obtain e where "s \<in> set (delta_text e)" by (auto simp: delta_texts_def)
    then have "s \<noteq> []" by (rule delta_text_nonempty)
    with s c show False by auto
  qed
qed simp

lemma submit_returned:
  assumes "submit prompt run st = (st', None)"
  shows "\<exists>r. run_outcome run = Inr r \<and>
           messages st' = messages st @ [user_message prompt,
             message_data (fst (feed (run_events run)
               (reset (st\<lparr>messages := messages st @ [user_message prompt]\<rparr>)))) r] \<and>
           delivered (run_events run) = run_events run"
proof -
  define st2 where "st2 = reset (st\<lparr>messages := messages st @ [user_message prompt]\<rparr>)"
  from assms obtain r where r: "snd (invoke run st2) = Inr r"
    and st': "st' = (fst (invoke run st2))\<lparr>messages := messages st @ [user_message prompt,
                 message_data (fst (invoke run st2)) r]\<rparr>"
    unfolding st2_def by (auto simp: submit_unfold split: sum.splits)
  from r have f: "snd (feed (run_events run) st2) = None" and o: "run_outcome run = Inr r"
    by (simp_all add: invoke_returns)
  from f have "delivered (run_events run) = run_events run" by (rule feed_all_delivered)
  with o st' show ?thesis by (auto simp: invoke_fst st2_def)
qed

lemma content_of_message_data:
  "msg_content (message_data (fst (feed evs (reset st))) r) =
     (if delta_texts (delivered evs) = [] then r else concat (delta_texts (delivered evs)))"
proof -
  have "all_agent_text (fst (feed evs (reset st))) = concat (delta_texts (delivered evs))"
    by (simp add: feed_fold fold_apply_effect all_text_writes reset_def)
  then show ?thesis
    using concat_delta_texts_empty [of "delivered evs"] by (simp add: message_data_def)
qed

text \<open>
  C2. When a submission completes, the last message of the transcript is the assistant
  message, and its content is the concatenation, in arrival order, of the raw text
  deltas of the cycle; with no delta it is the agent's returned value as a string.
\<close>

theorem display_text_is_concatenated_deltas:
  assumes "submit prompt run st = (st', None)"
  shows "\<exists>r. run_outcome run = Inr r \<and>
           msg_role (last (messages st')) = ''assistant'' \<and>
           msg_content (last (messages st')) =
             (if delta_texts (run_events run) = [] then r
              else concat (delta_texts (run_events run)))"
proof -
  from submit_returned [OF assms] obtain r where
    "run_outcome run = Inr r"
    "messages st' = messages st @ [user_message prompt,
             message_data (fst (feed (run_events run)
               (reset (st\<lparr>messages := messages st @ [user_message prompt]\<rparr>)))) r]"
    "delivered (run_events run) = run_events run" by blast
  then show ?thesis
    by (simp add: content_of_message_data) (simp add: message_data_def)
qed


subsection \<open>Dispatch\<close>

text \<open>
  C7. The handler dispatches in a fixed order. An event with a raw text delta is handled
  as the delta alone, whatever other keys it carries, and appends no flow item; otherwise
  an event with \<open>current_tool_use\<close> does nothing; otherwise an event with a message is
  handled as that message; any other event does nothing.
\<close>

theorem dispatch_priority:
  "(text_delta kwargs = Some (PStr s) \<longrightarrow>
      callback_handler kwargs = ([Accumulated_text_add s, All_agent_text_add s], None)) \<and>
   (text_delta kwargs = Some d \<longrightarrow>
      callback_handler kwargs = callback_handler [(''data'', d)] \<and> emitted kwargs = []) \<and>
   (text_delta kwargs = None \<and> ''current_tool_use'' \<in> set (map fst kwargs) \<longrightarrow>
      callback_handler kwargs = ([], None)) \<and>
   (text_delta kwargs = None \<and> ''current_tool_use'' \<notin> set (map fst kwargs) \<and>
    map_of kwargs ''message'' = Some message \<longrightarrow>
      callback_handler kwargs = handle_message message) \<and>
   (text_delta kwargs = None \<and> ''current_tool_use'' \<notin> set (map fst kwargs) \<and>
    map_of kwargs ''message'' = None \<longrightarrow>
      callback_handler kwargs = ([], None))"
proof -
  have "callback_handler kwargs = callback_handler [(''data'', d)] \<and> emitted kwargs = []"
    if "text_delta kwargs = Some d"
  proof -
    from that have "truthy d" by (auto simp: text_delta_def split: option.splits if_splits)
    then have "text_delta [(''data'', d)] = Some d" by (simp add: text_delta_def)
    with that show ?thesis
      by (cases d) (simp_all add: callback_handler_def emitted_def)
  qed
  then show ?thesis by (simp add: callback_handler_def)
qed

text \<open>
  C3. A malformed event must not make the handler raise. It does: on a tool call whose
  \<open>toolUse\<close> dict lacks \<open>name\<close> the handler raises \<open>KeyError\<close> and records nothing.
\<close>

theorem nameless_tool_use_raises:
  "callback_handler nameless_tool_use = ([], Some (KeyError ''name''))"
  by code_simp

text \<open>The tool-result path does tolerate missing fields: it reads them with \<open>.get\<close>.\<close>

lemma bare_tool_result_tolerated:
  "callback_handler bare_tool_result =
     ([Display (St_error (PStr ''Failed'')),
       Flow_append (Flow_tool_result \<lparr>info_status = PNone, info_content = PList []\<rparr>),
       Results_append \<lparr>info_status = PNone, info_content = PList []\<rparr>], None)"
  by code_simp

subsection \<open>The scenario\<close>

lemma writes_scenario:
  "writes (delivered scenario) =
     [Accumulated_text_add ''Let me check '', All_agent_text_add ''Let me check '',
      Accumulated_text_add ''that.'', All_agent_text_add ''that.'',
      Display (St_write (PStr ''Let me check that.'')),
      Flow_append (Flow_text (PStr ''Let me check that.'')),
      Display (St_info_tool_call (PStr ''calculator'')),
      Display (St_expander ''Tool Input'' False [St_json (PDict [(''expr'', PStr ''2+2'')])]),
      Flow_append (Flow_tool_call calculator_call),
      Tools_append calculator_call,
      Display St_success,
      Display (St_expander ''Tool Result'' True [St_code (PStr ''4'')]),
      Flow_append (Flow_tool_result calculator_result),
      Results_append calculator_result]"
  by code_simp

lemma scenario_returns: "snd (feed scenario st) = None"
proof -
  have "snd (feed evs st) = None" if "delivered evs = evs" "snd (callback_handler (last evs)) = None" for evs
    using that 
  proof (induction evs arbitrary: st)
    case Nil then show ?case by simp
  next
    case (Cons a evs)
    then show ?case by (cases evs) (auto simp: handle_event_def split: if_splits)
  qed
  moreover have "delivered scenario = scenario" by code_simp    
  moreover have "snd (callback_handler (last scenario)) = None" by code_simp    
  ultimately show ?thesis by blast
qed

text \<open>
  C5. The scenario of two deltas, an assistant message with a text and a calculator
  call, and a user message with the successful result completes, and appends the
  assistant message with the content, flow, tool calls and tool results expected.
\<close>

theorem scenario_finalizes:
  "snd (submit prompt \<lparr>run_events = scenario, run_outcome = Inr r\<rparr> st) = None \<and>
   messages (fst (submit prompt \<lparr>run_events = scenario, run_outcome = Inr r\<rparr> st)) =
     messages st @
     [user_message prompt,
      \<lparr>msg_role = ''assistant'',
       msg_content = ''Let me check that.'',
       msg_conversation_flow =
         Some [Flow_text (PStr ''Let me check that.''),
               Flow_tool_call calculator_call,
               Flow_tool_result calculator_result],
       msg_tools = Some [calculator_call],
       msg_results = Some [calculator_result]\<rparr>]"
proof -
  define st2 where "st2 = reset (st\<lparr>messages := messages st @ [user_message prompt]\<rparr>)"
  define run where "run = \<lparr>run_events = scenario, run_outcome = Inr r\<rparr>"
  have i: "snd (invoke run st2) = Inr r"
    by (simp add: invoke_returns scenario_returns run_def)
  have m: "message_data (fst (invoke run st2)) r =
      \<lparr>msg_role = ''assistant'',
       msg_content = ''Let me check that.'',
       msg_conversation_flow =
         Some [Flow_text (PStr ''Let me check that.''),
               Flow_tool_call calculator_call,
               Flow_tool_result calculator_result],
       msg_tools = Some [calculator_call],
       msg_results = Some [calculator_result]\<rparr>"
    by (simp add: invoke_fst run_def feed_fold writes_scenario message_data_def st2_def reset_def)
  show ?thesis
    using i m unfolding run_def st2_def by (simp add: submit_unfold)
qed


subsection \<open>Witnesses\<close>

theorem flow_log_order_and_views_witness:
  "snd (feed scenario (reset initial_session)) = None \<and>
   delivered scenario = scenario \<and>
   conversation_flow (fst (feed scenario (reset initial_session))) =
     concat (map emitted scenario) \<and>
   current_message_tools (fst (feed scenario (reset initial_session))) = [calculator_call] \<and>
   tool_calls_in (conversation_flow (fst (feed scenario (reset initial_session)))) =
     [calculator_call]"
proof -
  have r: "snd (feed scenario (reset initial_session)) = None" by code_simp
  have t: "current_message_tools (fst (feed scenario (reset initial_session))) = [calculator_call]"
    by code_simp
  from flow_log_order_and_views [of scenario initial_session] r t show ?thesis by simp
qed

theorem display_text_is_concatenated_deltas_witness:
  "submit ''what is 2+2?'' \<lparr>run_events = scenario, run_outcome = Inr ''4''\<rparr> initial_session =
     (fst (submit ''what is 2+2?'' \<lparr>run_events = scenario, run_outcome = Inr ''4''\<rparr>
        initial_session), None) \<and>
   msg_content (last (messages (fst (submit ''what is 2+2?''
     \<lparr>run_events = scenario, run_outcome = Inr ''4''\<rparr> initial_session)))) =
     ''Let me check that.''"
proof -
  have s: "submit ''what is 2+2?'' \<lparr>run_events = scenario, run_outcome = Inr ''4''\<rparr> initial_session =
     (fst (submit ''what is 2+2?'' \<lparr>run_events = scenario, run_outcome = Inr ''4''\<rparr>
        initial_session), None)"
    by code_simp
  have d: "delta_texts scenario = [''Let me check '', ''that.'']" by code_simp
  from display_text_is_concatenated_deltas [OF s] d show ?thesis using s by simp
qed

theorem failed_invocation_appends_no_turn_witness:
  "snd (invoke failing_run
     (reset (initial_session\<lparr>messages := messages initial_session @ [user_message ''hello'']\<rparr>))) =
     Inl (Agent_error ''throttled'') \<and>
   snd (submit ''hello'' failing_run initial_session) = Some (Agent_error ''throttled'') \<and>
   messages (fst (submit ''hello'' failing_run initial_session)) = [user_message ''hello'']"
proof -
  have i: "snd (invoke failing_run
     (reset (initial_session\<lparr>messages := messages initial_session @ [user_message ''hello'']\<rparr>))) =
     Inl (Agent_error ''throttled'')"
    by code_simp
  have m: "messages initial_session = []" by (simp add: initial_session_def)
  from failed_invocation_appends_no_turn [OF i] i m show ?thesis by simp
qed

theorem dispatch_priority_witness:
  "text_delta delta_with_message = Some (PStr ''hi'') \<and>
   callback_handler delta_with_message =
     ([Accumulated_text_add ''hi'', All_agent_text_add ''hi''], None) \<and>
   emitted delta_with_message = [] \<and>
   text_delta ((''current_tool_use'', PDict []) # assistant_event) = None \<and>
   callback_handler ((''current_tool_use'', PDict []) # assistant_event) = ([], None) \<and>
   text_delta assistant_event = None \<and>
   callback_handler assistant_event =
     handle_message (PDict
        [(''role'', PStr ''assistant''),
         (''content'', PList
            [PDict [(''text'', PStr ''Let me check that.'')],
             PDict [(''toolUse'', PDict
                [(''name'', PStr ''calculator''),
                 (''input'', PDict [(''expr'', PStr ''2+2'')]),
                 (''toolUseId'', PStr ''t1'')])]])]) \<and>
   callback_handler [(''init_event_loop'', PBool True)] = ([], None)"
proof -
  have a: "text_delta delta_with_message = Some (PStr ''hi'')" by code_simp
  have b: "text_delta ((''current_tool_use'', PDict []) # assistant_event) = None \<and>
           ''current_tool_use'' \<in> set (map fst ((''current_tool_use'', PDict []) # assistant_event))"
    by code_simp
  have c: "text_delta assistant_event = None \<and>
           ''current_tool_use'' \<notin> set (map fst assistant_event) \<and>
           map_of assistant_event ''message'' = Some (PDict
        [(''role'', PStr ''assistant''),
         (''content'', PList
            [PDict [(''text'', PStr ''Let me check that.'')],
             PDict [(''toolUse'', PDict
                [(''name'', PStr ''calculator''),
                 (''input'', PDict [(''expr'', PStr ''2+2'')]),
                 (''toolUseId'', PStr ''t1'')])]])])"
    by (simp add: assistant_event_def text_delta_def)
  have d: "text_delta [(''init_event_loop'', PBool True)] = None \<and>
           ''current_tool_use'' \<notin> set (map fst [(''init_event_loop'', PBool True)]) \<and>
           map_of [(''init_event_loop'', PBool True)] ''message'' = None"
    by (simp add: text_delta_def)
  have 1: "callback_handler delta_with_message =
     ([Accumulated_text_add ''hi'', All_agent_text_add ''hi''], None) \<and>
     emitted delta_with_message = []"
    using dispatch_priority [of delta_with_message "''hi''" "PStr ''hi''"] a by simp
  have 2: "callback_handler ((''current_tool_use'', PDict []) # assistant_event) = ([], None)"
    using dispatch_priority [of "(''current_tool_use'', PDict []) # assistant_event"] b
    by (simp del: list.set list.map)
  have 3: "callback_handler assistant_event =
     handle_message (PDict
        [(''role'', PStr ''assistant''),
         (''content'', PList
            [PDict [(''text'', PStr ''Let me check that.'')],
             PDict [(''toolUse'', PDict
                [(''name'', PStr ''calculator''),
                 (''input'', PDict [(''expr'', PStr ''2+2'')]),
                 (''toolUseId'', PStr ''t1'')])]])])"
    using dispatch_priority [of assistant_event _ _ "PDict
        [(''role'', PStr ''assistant''),
         (''content'', PList
            [PDict [(''text'', PStr ''Let me check that.'')],
             PDict [(''toolUse'', PDict
                [(''name'', PStr ''calculator''),
                 (''input'', PDict [(''expr'', PStr ''2+2'')]),
                 (''toolUseId'', PStr ''t1'')])]])]"] c
    by simp
  have 4: "callback_handler [(''init_event_loop'', PBool True)] = ([], None)"
    using dispatch_priority [of "[(''init_event_loop'', PBool True)]"] d by simp
  from a b c 1 2 3 4 show ?thesis by simp
qed

subsection \<open>Replay\<close>


subsection \<open>Text chunks and the display text\<close>

text \<open>
  C6 (amended). The content of a completed assistant message is the concatenation of the
  raw text deltas, not of the text chunks of the flow, and the agent's returned value
  when there was no delta; it is the display text read from the chunks whenever the
  chunks and the deltas spell the same text and there was a delta.
\<close>

theorem display_text_and_text_chunks:
  assumes "submit prompt run st = (st', None)"
  shows "\<exists>r. run_outcome run = Inr r \<and>
           msg_content (last (messages st')) =
             (if delta_texts (run_events run) = [] then r
              else concat (delta_texts (run_events run))) \<and>
           (concat (chunk_texts (the (msg_conversation_flow (last (messages st'))))) =
              concat (delta_texts (run_events run)) \<and> delta_texts (run_events run) \<noteq> [] \<longrightarrow>
            msg_content (last (messages st')) =
              display_text_of_chunks (the (msg_conversation_flow (last (messages st')))) r)"
proof -
  from submit_returned [OF assms] obtain r where r: "run_outcome run = Inr r"
    and m: "messages st' = messages st @ [user_message prompt,
             message_data (fst (feed (run_events run)
               (reset (st\<lparr>messages := messages st @ [user_message prompt]\<rparr>)))) r]"
    and d: "delivered (run_events run) = run_events run" by blast
  have c: "msg_content (last (messages st')) =
             (if delta_texts (run_events run) = [] then r
              else concat (delta_texts (run_events run)))"
    using d by (simp add: m content_of_message_data)
  have "msg_content (last (messages st')) =
          display_text_of_chunks (the (msg_conversation_flow (last (messages st')))) r"
    if "concat (chunk_texts (the (msg_conversation_flow (last (messages st'))))) =
          concat (delta_texts (run_events run))" "delta_texts (run_events run) \<noteq> []"
  proof -
    from that(2) have "concat (delta_texts (run_events run)) \<noteq> []"
      using concat_delta_texts_empty [of "run_events run"] by blast
    with that(1) have "chunk_texts (the (msg_conversation_flow (last (messages st')))) \<noteq> []"
      by auto
    with that c show ?thesis by (simp add: display_text_of_chunks_def)
  qed
  with r c show ?thesis by blast
qed

theorem display_text_and_text_chunks_witness:
  "snd (submit ''what is 2+2?'' \<lparr>run_events = scenario, run_outcome = Inr ''4''\<rparr>
     initial_session) = None \<and>
   concat (chunk_texts (the (msg_conversation_flow (last (messages (fst (submit ''what is 2+2?''
     \<lparr>run_events = scenario, run_outcome = Inr ''4''\<rparr> initial_session))))))) =
     concat (delta_texts scenario) \<and>
   delta_texts scenario \<noteq> [] \<and>
   msg_content (last (messages (fst (submit ''what is 2+2?''
     \<lparr>run_events = scenario, run_outcome = Inr ''4''\<rparr> initial_session)))) =
     display_text_of_chunks (the (msg_conversation_flow (last (messages (fst (submit
       ''what is 2+2?'' \<lparr>run_events = scenario, run_outcome = Inr ''4''\<rparr>
       initial_session)))))) ''4''"
proof -
  define fin where "fin = submit ''what is 2+2?''
    \<lparr>run_events = scenario, run_outcome = Inr ''4''\<rparr> initial_session"
  have n: "snd fin = None"
    unfolding fin_def by code_simp
  then have s: "submit ''what is 2+2?'' \<lparr>run_events = scenario, run_outcome = Inr ''4''\<rparr>
      initial_session = (fst fin, None)"
    unfolding fin_def by (metis prod.collapse)
  have e: "concat (chunk_texts (the (msg_conversation_flow (last (messages (fst fin)))))) =
     concat (delta_texts scenario)"
    unfolding fin_def by code_simp
  have d: "delta_texts scenario \<noteq> []"
    by code_simp
  from display_text_and_text_chunks [OF s] e d
  have "msg_content (last (messages (fst fin))) =
     display_text_of_chunks (the (msg_conversation_flow (last (messages (fst fin))))) ''4''"
    by auto
  with n e d show ?thesis
    unfolding fin_def by blast
qed

theorem chunks_do_not_set_display_text:
  "snd (submit ''hi'' chunk_only_run initial_session) = None \<and>
   chunk_texts (the (msg_conversation_flow
     (last (messages (fst (submit ''hi'' chunk_only_run initial_session)))))) = [''hello''] \<and>
   msg_content (last (messages (fst (submit ''hi'' chunk_only_run initial_session)))) = ''R'' \<and>
   display_text_of_chunks (the (msg_conversation_flow
     (last (messages (fst (submit ''hi'' chunk_only_run initial_session)))))) ''R'' = ''hello'' \<and>
   msg_content (last (messages (fst (submit ''hi'' chunk_only_run initial_session)))) \<noteq>
     display_text_of_chunks (the (msg_conversation_flow
       (last (messages (fst (submit ''hi'' chunk_only_run initial_session)))))) ''R''"
  by code_simp

subsection \<open>Tool-result status\<close>

lemma displayed_simps [simp]:
  "displayed [] = []"
  "displayed (e # es) = display_of_effect e @ displayed es"
  "displayed (es @ es') = displayed es @ displayed es'"
  by (simp_all add: displayed_def)

lemma displayed_map_Display [simp]: "displayed (map Display is) = is"
  by (induction "is") simp_all

section \<open>Stored messages and the buffers\<close>

subsection \<open>Submissions as actions\<close>

lemma snd_feed: "snd (feed evs st) = first_error evs"
  by (induction evs arbitrary: st) (auto simp: handle_event_def split: option.splits)

lemma fold_step_events:
  "fold step (map Event evs) st = fold apply_effect (writes evs) st"
  by (induction evs arbitrary: st) (simp_all add: writes_def handle_event_def)

lemma submit_as_actions: "fst (submit prompt run st) = fold step (submit_actions prompt run) st"
proof -
  define st2 where "st2 = reset (st\<lparr>messages := messages st @ [user_message prompt]\<rparr>)"
  define st3 where "st3 = fst (feed (run_events run) st2)"
  have 3: "st3 = fold step (map Event (delivered (run_events run))) st2"
    by (simp add: st3_def feed_fold fold_step_events)
  have m: "messages st3 = messages st @ [user_message prompt]"
    by (simp add: st3_def st2_def feed_messages reset_def)
  have i: "invoke run st2 =
     (st3, case first_error (run_events run) of Some e \<Rightarrow> Inl e | None \<Rightarrow> run_outcome run)"
    using snd_feed [of "run_events run" st2]
    by (cases "feed (run_events run) st2") (auto simp: invoke_def st3_def split: option.splits)
  have "fst (submit prompt run st) =
      (case first_error (run_events run) of
        Some e \<Rightarrow> st3
      | None \<Rightarrow> (case run_outcome run of Inl e \<Rightarrow> st3
           | Inr result \<Rightarrow> st3\<lparr>messages := messages st3 @ [message_data st3 result]\<rparr>))"
    unfolding submit_def Let_def st2_def [symmetric] i
    by (simp split: option.splits sum.splits)
  also have "\<dots> = fold step (submit_actions prompt run) st"
    unfolding submit_actions_def 3
    by (simp add: st2_def split: option.splits sum.splits)
  finally show ?thesis .
qed

subsection \<open>The store\<close>

lemma apply_effect_h_frame:
  "next_addr (apply_effect_h e h) = next_addr h"
  "conversation_flow_h (apply_effect_h e h) = conversation_flow_h h"
  "current_message_tools_h (apply_effect_h e h) = current_message_tools_h h"
  "current_message_results_h (apply_effect_h e h) = current_message_results_h h"
  "messages_h (apply_effect_h e h) = messages_h h"
  "a \<noteq> conversation_flow_h h \<Longrightarrow> flow_heap (apply_effect_h e h) a = flow_heap h a"
  "a \<noteq> current_message_tools_h h \<Longrightarrow> tool_heap (apply_effect_h e h) a = tool_heap h a"
  "a \<noteq> current_message_results_h h \<Longrightarrow> result_heap (apply_effect_h e h) a = result_heap h a"
  by (cases e; simp)+

lemma fold_apply_effect_h_frame:
  "next_addr (fold apply_effect_h es h) = next_addr h"
  "conversation_flow_h (fold apply_effect_h es h) = conversation_flow_h h"
  "current_message_tools_h (fold apply_effect_h es h) = current_message_tools_h h"
  "current_message_results_h (fold apply_effect_h es h) = current_message_results_h h"
  "messages_h (fold apply_effect_h es h) = messages_h h"
  "a \<noteq> conversation_flow_h h \<Longrightarrow> flow_heap (fold apply_effect_h es h) a = flow_heap h a"
  "a \<noteq> current_message_tools_h h \<Longrightarrow> tool_heap (fold apply_effect_h es h) a = tool_heap h a"
  "a \<noteq> current_message_results_h h \<Longrightarrow> result_heap (fold apply_effect_h es h) a = result_heap h a"
  by (induction es arbitrary: h; simp add: apply_effect_h_frame)+

lemma separated_kept: "separated h \<Longrightarrow> sm \<in> set (messages_h h) \<Longrightarrow> kept h sm"
  by (simp add: separated_def list_all_iff)

text \<open>A kept message reads the same after a step, and stays kept.\<close>

lemma step_h_view:
  assumes "kept h sm"
  shows "view_message (step_h a h) sm = view_message h sm"
proof (cases a)
  case (Event kwargs)
  with assms show ?thesis
    by (auto simp: kept_def apart_def view_message_def fold_apply_effect_h_frame
        split: option.splits)
next
  case Reset
  with assms show ?thesis
    by (auto simp: kept_def apart_def view_message_def reset_h_def split: option.splits)
next
  case (Finalize r)
  with assms show ?thesis
    by (auto simp: kept_def apart_def view_message_def finalize_h_def split: option.splits)
qed (simp_all add: view_message_def)

lemma step_h_kept:
  assumes "kept h sm" and "conversation_flow_h h < next_addr h"
    and "current_message_tools_h h < next_addr h" and "current_message_results_h h < next_addr h"
  shows "kept (step_h a h) sm"
proof (cases a)
  case (Event kwargs)
  with assms show ?thesis by (simp add: kept_def fold_apply_effect_h_frame)
next
  case Reset
  with assms show ?thesis
    by (auto simp: kept_def apart_def reset_h_def split: option.splits)
next
  case (Finalize r)
  with assms show ?thesis
    by (auto simp: kept_def apart_def finalize_h_def split: option.splits)
qed (use assms in \<open>simp_all add: kept_def\<close>)

lemma step_h_separated:
  assumes "separated h"
  shows "separated (step_h a h)"
proof -
  from assms have b: "conversation_flow_h h < next_addr h"
    "current_message_tools_h h < next_addr h" "current_message_results_h h < next_addr h"
    by (simp_all add: separated_def)
  have old: "kept (step_h a h) sm" if "sm \<in> set (messages_h h)" for sm
    using separated_kept [OF assms that] b by (rule step_h_kept)
  have bufs: "conversation_flow_h (step_h a h) < next_addr (step_h a h) \<and>
    current_message_tools_h (step_h a h) < next_addr (step_h a h) \<and>
    current_message_results_h (step_h a h) < next_addr (step_h a h)"
    using b by (cases a) (simp_all add: fold_apply_effect_h_frame reset_h_def finalize_h_def)
  have new: "kept (step_h a h) sm" if "sm \<in> set (messages_h (step_h a h))" for sm
  proof (cases a)
    case (User_prompt p)
    with that old [of sm] show ?thesis by (auto simp: kept_def apart_def)
  next
    case Reset
    with that old [of sm] show ?thesis by (simp add: reset_h_def)
  next
    case (Event kwargs)
    with that old [of sm] show ?thesis by (simp add: fold_apply_effect_h_frame)
  next
    case (Finalize r)
    with that old [of sm] b show ?thesis
      by (auto simp: finalize_h_def kept_def apart_def)
  next
    case Clear_chat
    with that show ?thesis by simp
  qed
  from bufs new show ?thesis
    by (simp add: separated_def list_all_iff)
qed

lemma separated_initial: "separated initial_heap_session"
  by (simp add: separated_def initial_heap_session_def)

lemma fold_step_h_separated: "separated h \<Longrightarrow> separated (fold step_h as h)"
  by (induction as arbitrary: h) (simp_all add: step_h_separated)

lemma step_h_messages:
  "a \<noteq> Clear_chat \<Longrightarrow> prefix (messages_h h) (messages_h (step_h a h))"
  by (cases a) (simp_all add: fold_apply_effect_h_frame reset_h_def finalize_h_def)

lemma fold_step_h_keeps:
  assumes "separated h" and "Clear_chat \<notin> set as"
  shows "prefix (messages_h h) (messages_h (fold step_h as h)) \<and>
         (\<forall>sm \<in> set (messages_h h). view_message (fold step_h as h) sm = view_message h sm)"
  using assms
proof (induction as arbitrary: h)
  case Nil
  then show ?case by simp
next
  case (Cons a as)
  from Cons.prems have s: "separated (step_h a h)" by (simp add: step_h_separated)
  from Cons.prems have "a \<noteq> Clear_chat"
    by auto
  then have p: "prefix (messages_h h) (messages_h (step_h a h))"
    by (rule step_h_messages)
  from Cons.IH [OF s] Cons.prems(2)
  have ih: "prefix (messages_h (step_h a h)) (messages_h (fold step_h as (step_h a h)))"
    "\<forall>sm \<in> set (messages_h (step_h a h)).
       view_message (fold step_h as (step_h a h)) sm = view_message (step_h a h) sm"
    by simp_all
  have "view_message (fold step_h (a # as) h) sm = view_message h sm"
    if "sm \<in> set (messages_h h)" for sm
  proof -
    from that p have "sm \<in> set (messages_h (step_h a h))"
      by (auto dest: set_mono_prefix)
    with ih(2) have "view_message (fold step_h as (step_h a h)) sm = view_message (step_h a h) sm"
      by blast
    also have "\<dots> = view_message h sm"
      using separated_kept [OF Cons.prems(1) that] by (rule step_h_view)
    finally show ?thesis by simp
  qed
  with p ih(1) show ?case by (auto intro: prefix_order.trans)
qed


subsection \<open>The store agrees with the session of values\<close>

lemma map_view_step_h:
  assumes "separated h"
  shows "map (view_message (step_h a h)) (messages_h h) = map (view_message h) (messages_h h)"
  using separated_kept [OF assms] by (simp add: step_h_view)

lemma accumulated_text_adds_simps [simp]:
  "accumulated_text_adds [] = []"
  "accumulated_text_adds (e # es) = accumulated_text_of_effect e @ accumulated_text_adds es"
  by (simp_all add: accumulated_text_adds_def)

lemma fold_apply_effect_texts:
  "accumulated_text (fold apply_effect es st) = accumulated_text st @ accumulated_text_adds es"
  "current_message_accumulated (fold apply_effect es st) = current_message_accumulated st"
proof (induction es arbitrary: st)
  case Nil
  { case 1 show ?case by simp }
  { case 2 show ?case by simp }
next
  case (Cons e es)
  { case 1 show ?case by (cases e) (simp_all add: Cons.IH) }
  { case 2 show ?case by (cases e) (simp_all add: Cons.IH) }
qed

lemma fold_apply_effect_h_buffers:
  "flow_heap (fold apply_effect_h es h) (conversation_flow_h h) =
     flow_heap h (conversation_flow_h h) @ flow_appends es"
  "tool_heap (fold apply_effect_h es h) (current_message_tools_h h) =
     tool_heap h (current_message_tools_h h) @ tools_appends es"
  "result_heap (fold apply_effect_h es h) (current_message_results_h h) =
     result_heap h (current_message_results_h h) @ results_appends es"
  "all_agent_text_h (fold apply_effect_h es h) = all_agent_text_h h @ all_text_adds es"
  "accumulated_text_h (fold apply_effect_h es h) = accumulated_text_h h @ accumulated_text_adds es"
  "current_message_accumulated_h (fold apply_effect_h es h) = current_message_accumulated_h h"
proof (induction es arbitrary: h)
  case Nil
  { case 1 show ?case by simp }
  { case 2 show ?case by simp }
  { case 3 show ?case by simp }
  { case 4 show ?case by simp }
  { case 5 show ?case by simp }
  { case 6 show ?case by simp }
next
  case (Cons e es)
  { case 1 show ?case using Cons.IH(1) [of "apply_effect_h e h"] by (cases e) simp_all }
  { case 2 show ?case using Cons.IH(2) [of "apply_effect_h e h"] by (cases e) simp_all }
  { case 3 show ?case using Cons.IH(3) [of "apply_effect_h e h"] by (cases e) simp_all }
  { case 4 show ?case using Cons.IH(4) [of "apply_effect_h e h"] by (cases e) simp_all }
  { case 5 show ?case using Cons.IH(5) [of "apply_effect_h e h"] by (cases e) simp_all }
  { case 6 show ?case using Cons.IH(6) [of "apply_effect_h e h"] by (cases e) simp_all }
qed

lemma view_step_h:
  assumes "separated h"
  shows "view_session (step_h a h) = step a (view_session h)"
proof -
  note m = map_view_step_h [OF assms, of a]
  from assms have b: "conversation_flow_h h < next_addr h"
    "current_message_tools_h h < next_addr h" "current_message_results_h h < next_addr h"
    by (simp_all add: separated_def)
  show ?thesis
  proof (cases a)
    case (User_prompt p)
    with m show ?thesis
      by (simp add: view_session_def) (simp add: view_message_def user_message_def)
  next
    case Reset
    with m show ?thesis
      by (simp add: view_session_def reset_def) (simp add: reset_h_def)
  next
    case (Event kwargs)
    with m show ?thesis
      by (intro session.equality)
         (simp_all add: view_session_def handle_event_def fold_apply_effect fold_apply_effect_texts
           fold_apply_effect_h_buffers fold_apply_effect_h_frame)
  next
    case (Finalize r)
    with m b show ?thesis
      by (simp add: view_session_def) (simp add: finalize_h_def view_message_def message_data_def)
  next
    case Clear_chat
    then show ?thesis
      by (simp add: view_session_def clear_chat_def)
  qed
qed

lemma view_initial: "view_session initial_heap_session = initial_session"
  by (simp add: view_session_def initial_heap_session_def initial_session_def)

lemma view_fold_step_h:
  "separated h \<Longrightarrow> view_session (fold step_h as h) = fold step as (view_session h)"
  by (induction as arbitrary: h) (simp_all add: view_step_h step_h_separated)


text \<open>
  C8. Start from the initial session and run any actions. Then no stored message shares a
  list object with a buffer (finalizing stored copies), and whatever actions follow short
  of clearing the chat -- resets, calls of the handler, further messages --, the
  transcript only grows, and every message already stored holds the same role, content,
  flow, tool calls and tool results as before.
\<close>

theorem stored_turns_unchanged:
  assumes "Clear_chat \<notin> set later"
  shows "separated (fold step_h past initial_heap_session) \<and>
         prefix (messages_h (fold step_h past initial_heap_session))
           (messages_h (fold step_h (past @ later) initial_heap_session)) \<and>
         (\<forall>sm \<in> set (messages_h (fold step_h past initial_heap_session)).
            view_message (fold step_h (past @ later) initial_heap_session) sm =
            view_message (fold step_h past initial_heap_session) sm) \<and>
         prefix (messages (fold step past initial_session))
           (messages (fold step (past @ later) initial_session))"
proof -
  define h where "h = fold step_h past initial_heap_session"
  define h' where "h' = fold step_h later h"
  have h': "fold step_h (past @ later) initial_heap_session = h'"
    by (simp add: h'_def h_def)
  have s: "separated h"
    unfolding h_def using separated_initial by (rule fold_step_h_separated)
  from fold_step_h_keeps [OF s assms]
  have p: "prefix (messages_h h) (messages_h h')"
    and k: "\<forall>sm \<in> set (messages_h h). view_message h' sm = view_message h sm"
    by (simp_all add: h'_def)
  have v: "fold step past initial_session = view_session h"
    unfolding h_def by (simp add: view_fold_step_h separated_initial view_initial)
  have v': "fold step (past @ later) initial_session = view_session h'"
    unfolding h' [symmetric]
    using view_fold_step_h [OF separated_initial, of "past @ later"] by (simp only: view_initial)
  from p obtain ms where ms: "messages_h h' = messages_h h @ ms"
    by (auto simp: prefix_def)
  have e: "map (view_message h') (messages_h h) = map (view_message h) (messages_h h)"
    using k by simp
  have "prefix (messages (view_session h)) (messages (view_session h'))"
    by (simp add: view_session_def ms e)
  with s p k show ?thesis
    unfolding v v' h' h_def [symmetric] by blast
qed

theorem stored_turns_unchanged_witness:
  "Clear_chat \<notin> set second_turn \<and>
   messages_h (fold step_h first_turn initial_heap_session) =
     [\<lparr>sm_role = ''user'', sm_content = ''what is 2+2?'', sm_conversation_flow = None,
       sm_tools = None, sm_results = None\<rparr>,
      \<lparr>sm_role = ''assistant'', sm_content = ''Let me check that.'',
       sm_conversation_flow = Some 6, sm_tools = Some 7, sm_results = Some 8\<rparr>] \<and>
   view_message (fold step_h (first_turn @ second_turn) initial_heap_session)
     \<lparr>sm_role = ''assistant'', sm_content = ''Let me check that.'',
      sm_conversation_flow = Some 6, sm_tools = Some 7, sm_results = Some 8\<rparr> =
     \<lparr>msg_role = ''assistant'', msg_content = ''Let me check that.'',
      msg_conversation_flow =
        Some [Flow_text (PStr ''Let me check that.''), Flow_tool_call calculator_call,
              Flow_tool_result calculator_result],
      msg_tools = Some [calculator_call], msg_results = Some [calculator_result]\<rparr> \<and>
   length (messages_h (fold step_h (first_turn @ second_turn) initial_heap_session)) = 4"
proof -
  have c: "Clear_chat \<notin> set second_turn"
    by (simp add: second_turn_def)
  have m: "messages_h (fold step_h first_turn initial_heap_session) =
     [\<lparr>sm_role = ''user'', sm_content = ''what is 2+2?'', sm_conversation_flow = None,
       sm_tools = None, sm_results = None\<rparr>,
      \<lparr>sm_role = ''assistant'', sm_content = ''Let me check that.'',
       sm_conversation_flow = Some 6, sm_tools = Some 7, sm_results = Some 8\<rparr>]"
    by code_simp
  have v: "view_message (fold step_h first_turn initial_heap_session)
     \<lparr>sm_role = ''assistant'', sm_content = ''Let me check that.'',
      sm_conversation_flow = Some 6, sm_tools = Some 7, sm_results = Some 8\<rparr> =
     \<lparr>msg_role = ''assistant'', msg_content = ''Let me check that.'',
      msg_conversation_flow =
        Some [Flow_text (PStr ''Let me check that.''), Flow_tool_call calculator_call,
              Flow_tool_result calculator_result],
      msg_tools = Some [calculator_call], msg_results = Some [calculator_result]\<rparr>"
    by code_simp
  have l: "length (messages_h (fold step_h (first_turn @ second_turn) initial_heap_session)) = 4"
    by code_simp
  from stored_turns_unchanged [OF c, of first_turn]
  have "\<forall>sm \<in> set (messages_h (fold step_h first_turn initial_heap_session)).
            view_message (fold step_h (first_turn @ second_turn) initial_heap_session) sm =
            view_message (fold step_h first_turn initial_heap_session) sm"
    by blast
  then have "view_message (fold step_h (first_turn @ second_turn) initial_heap_session)
     \<lparr>sm_role = ''assistant'', sm_content = ''Let me check that.'',
      sm_conversation_flow = Some 6, sm_tools = Some 7, sm_results = Some 8\<rparr> =
     view_message (fold step_h first_turn initial_heap_session)
     \<lparr>sm_role = ''assistant'', sm_content = ''Let me check that.'',
      sm_conversation_flow = Some 6, sm_tools = Some 7, sm_results = Some 8\<rparr>"
    unfolding m by simp
  with c m v l show ?thesis
    by simp
qed

section \<open>Tool results: storing and badges\<close>


lemma and_then_Nil [simp]: "and_then ([], None) q = q"
  by (cases q) (simp add: and_then_def)




















subsection \<open>Legacy messages\<close>



text \<open>
  The program itself stores every assistant message with the flow key, and with tool
  calls and tool results exactly when its flow holds some: a message with an empty flow
  and populated tool lists can only be a legacy one.
\<close>

lemma settled_step: "settled st \<Longrightarrow> settled (step a st)"
proof (cases a)
  case (Event kwargs)
  assume "settled st"
  with Event mirrored_callback_handler [of kwargs] show ?thesis
    by (simp add: settled_def handle_event_def fold_apply_effect mirrored_def)
next
  case (Finalize r)
  assume "settled st"
  with Finalize show ?thesis
    by (simp add: settled_def message_data_def)
qed (simp_all add: settled_def reset_def clear_chat_def user_message_def)

lemma settled_reachable: "settled (fold step as initial_session)"
proof -
  have "settled st \<Longrightarrow> settled (fold step as st)" for st
    by (induction as arbitrary: st) (simp_all add: settled_step)
  moreover have "settled initial_session"
    by (simp add: settled_def initial_session_def)
  ultimately show ?thesis .
qed

lemma empty_flow_has_no_tools:
  assumes "m \<in> set (messages (fold step as initial_session))"
    and "msg_conversation_flow m = Some []"
  shows "msg_tools m = None \<and> msg_results m = None"
  using settled_reachable [of as] assms by (auto simp: settled_def list_all_iff)

end
